theory Spec2Isabelle
  imports Main "HOL-Library.Sublist"
begin

section \<open>The data table manager of flipper-plugin\<close>

text \<open>
  A shallow embedding of \<^verbatim>\<open>useDataTableManager.tsx\<close> (the hook that owns the
  columns, the sorting, the search value and the selection of a data table) and of the
  keyboard handler of \<^verbatim>\<open>DataTable.tsx\<close>.

  The hook's React state is a record; every callback of the hook is a function from the
  state before the call to the state after it, run against the state the previous call
  committed (a render lies between two calls, so that a callback closes over the current
  \<^verbatim>\<open>sorting\<close>). A callback that throws returns \<open>Inl\<close> of the error.
  Indices are JavaScript numbers that hold integers here: \<open>int\<close>. The default columns
  and the \<^verbatim>\<open>onSelect\<close> callback are props that stay the same while the table is
  mounted.
\<close>

subsection \<open>Types\<close>

datatype error = TypeError

datatype align = Left | Right | Center

text \<open>
  \<^verbatim>\<open>DataTableColumn<T>\<close>: every field but \<^verbatim>\<open>key\<close> is optional, \<open>None\<close> is
  \<^verbatim>\<open>undefined\<close>. \<open>'n\<close> stands for the render function of a column and \<open>'w\<close> for a
  width (\<^verbatim>\<open>number | Percentage\<close>).
\<close>

record ('n, 'w) DataTableColumn =
  key :: string
  onRender :: "'n option"
  title :: "string option"
  width :: "'w option"
  wrap :: "bool option"
  align :: "align option"
  visible :: "bool option"

datatype direction = up | down

text \<open>
  \<^verbatim>\<open>Sorting\<close>: its field \<^verbatim>\<open>key\<close> is \<open>sortKey\<close> here, \<open>key\<close> being the
  column's. The directions keep the names of the code, \<^verbatim>\<open>'up'\<close> and \<^verbatim>\<open>'down'\<close>;
  where the specification says descending it means \<^verbatim>\<open>'down'\<close>, the direction a
  newly sorted column gets, and ascending is \<^verbatim>\<open>'up'\<close>.
\<close>

record Sorting =
  sortKey :: string
  direction :: direction

text \<open>
  A row is an object: its own properties in order. \<^verbatim>\<open>Object.values\<close> gives the
  property values.
\<close>

type_synonym 'v row = "(string \<times> 'v) list"

definition Object_values :: "'v row \<Rightarrow> 'v list" where
  "Object_values item = map snd item"

text \<open>
  Modelled from the spec: the class \<^verbatim>\<open>DataSource\<close> is imported from
  \<^verbatim>\<open>state/datasource/DataSource\<close> and is not part of the sources at hand. The spec
  gives its contract: \<^verbatim>\<open>setFilter\<close>, \<^verbatim>\<open>setSortBy\<close> and \<^verbatim>\<open>setReversed\<close> are
  configuration setters, \<^verbatim>\<open>reset\<close> clears the filter and sort configuration. The
  record below is the configuration the manager has pushed, with a count of the resets.
\<close>

record 'a DataSourceConfig =
  filterBy :: "('a \<Rightarrow> bool) option"
  sortBy :: "string option"
  reversed :: bool
  resets :: nat

definition setFilter :: "('a \<Rightarrow> bool) option \<Rightarrow> 'a DataSourceConfig \<Rightarrow> 'a DataSourceConfig" where
  "setFilter f ds = ds\<lparr>filterBy := f\<rparr>"

definition setSortBy :: "string option \<Rightarrow> 'a DataSourceConfig \<Rightarrow> 'a DataSourceConfig" where
  "setSortBy k ds = ds\<lparr>sortBy := k\<rparr>"

definition setReversed :: "bool \<Rightarrow> 'a DataSourceConfig \<Rightarrow> 'a DataSourceConfig" where
  "setReversed r ds = ds\<lparr>reversed := r\<rparr>"

definition reset_ds :: "'a DataSourceConfig \<Rightarrow> 'a DataSourceConfig" where
  "reset_ds ds = ds\<lparr>filterBy := None, sortBy := None, reversed := False, resets := Suc (resets ds)\<rparr>"

text \<open>
  What the manager reads of the data source: \<^verbatim>\<open>dataSource.output\<close> and
  \<^verbatim>\<open>dataSource.getItem\<close>, as they are when a callback runs. The data source
  recomputes its output by itself, so a callback that reads takes this view as an
  argument. \<^verbatim>\<open>getItem\<close> is the method of the data source, not modelled further.
\<close>

record 'a DataSourceView =
  "output" :: "'a list"
  getItem :: "int \<Rightarrow> 'a option"

text \<open>
  The state of the hook (\<^verbatim>\<open>useState\<close> cells), the configuration it has pushed to the
  data source, and the calls it has made of the \<^verbatim>\<open>onSelect\<close> callback, oldest first.
\<close>

record ('n, 'w, 'v) TableManager =
  columns :: "('n, 'w) DataTableColumn list"
  selection :: int
  sorting :: "Sorting option"
  searchValue :: string
  dataSource :: "'v row DataSourceConfig"
  onSelectCalls :: "('v row option \<times> int) list"

subsection \<open>Columns\<close>

text \<open>JavaScript truthiness of an optional boolean: \<^verbatim>\<open>undefined\<close> is falsy.\<close>

fun truthy :: "bool option \<Rightarrow> bool" where
  "truthy None = False"
| "truthy (Some b) = b"

definition computeInitialColumns ::
  "('n, 'w) DataTableColumn list \<Rightarrow> ('n, 'w) DataTableColumn list" where
  "computeInitialColumns cols = map (\<lambda>c. c\<lparr>visible := Some (visible c \<noteq> Some False)\<rparr>) cols"

definition visibleColumns :: "('n, 'w, 'v) TableManager \<Rightarrow> ('n, 'w) DataTableColumn list" where
  "visibleColumns st = filter (\<lambda>column. truthy (visible column)) (columns st)"

text \<open>
  \<^verbatim>\<open>columns.find((c) => c.key === id)\<close> inside an immer recipe gives the first
  column with that key as a draft to be written through, or \<^verbatim>\<open>undefined\<close>: the
  position of the column, or \<open>None\<close>.
\<close>

fun find_col :: "string \<Rightarrow> ('n, 'w) DataTableColumn list \<Rightarrow> nat option" where
  "find_col k [] = None"
| "find_col k (c # cs) =
     (if key c = k then Some 0 else map_option Suc (find_col k cs))"

text \<open>
  \<^verbatim>\<open>resizeColumn\<close> and \<^verbatim>\<open>toggleColumnVisibility\<close>: the recipe writes a property
  of \<^verbatim>\<open>col\<close>; with \<^verbatim>\<open>col\<close> undefined (the non-null assertion \<^verbatim>\<open>!\<close> checks
  nothing at run time) the write, or the read of \<^verbatim>\<open>col.visible\<close>, throws a
  TypeError.
\<close>

definition resizeColumn ::
  "string \<Rightarrow> 'w \<Rightarrow> ('n, 'w, 'v) TableManager \<Rightarrow> error + ('n, 'w, 'v) TableManager" where
  "resizeColumn k w st =
     (case find_col k (columns st) of
        None \<Rightarrow> Inl TypeError
      | Some i \<Rightarrow> Inr (st\<lparr>columns := (columns st)[i := (columns st ! i)\<lparr>width := Some w\<rparr>]\<rparr>))"

definition toggleColumnVisibility ::
  "string \<Rightarrow> ('n, 'w, 'v) TableManager \<Rightarrow> error + ('n, 'w, 'v) TableManager" where
  "toggleColumnVisibility k st =
     (case find_col k (columns st) of
        None \<Rightarrow> Inl TypeError
      | Some i \<Rightarrow>
          Inr (st\<lparr>columns :=
                 (columns st)[i := (columns st ! i)\<lparr>visible := Some (\<not> truthy (visible (columns st ! i)))\<rparr>]\<rparr>))"

definition reset ::
  "('n, 'w) DataTableColumn list \<Rightarrow> ('n, 'w, 'v) TableManager \<Rightarrow> ('n, 'w, 'v) TableManager" where
  "reset defaultColumns st =
     st\<lparr>columns := computeInitialColumns defaultColumns,
        sorting := None,
        dataSource := reset_ds (dataSource st)\<rparr>"

subsection \<open>Sorting\<close>

definition sortColumn :: "string \<Rightarrow> ('n, 'w, 'v) TableManager \<Rightarrow> ('n, 'w, 'v) TableManager" where
  "sortColumn k st =
     (if map_option sortKey (sorting st) = Some k then
        (if map_option direction (sorting st) = Some down then
           st\<lparr>sorting := Some \<lparr>sortKey = k, direction = up\<rparr>,
              dataSource := setReversed True (dataSource st)\<rparr>
         else
           st\<lparr>sorting := None,
              dataSource := setReversed False (setSortBy None (dataSource st))\<rparr>)
      else
        st\<lparr>sorting := Some \<lparr>sortKey = k, direction = down\<rparr>,
           dataSource := setReversed False (setSortBy (Some k) (dataSource st))\<rparr>)"

subsection \<open>Search\<close>

text \<open>
  \<^verbatim>\<open>String.prototype.toLowerCase\<close> and \<^verbatim>\<open>includes\<close> on strings of ASCII
  characters: the letters A to Z (codes 65 to 90) move to a to z, every other character
  stays; \<open>str_includes s t\<close> is \<^verbatim>\<open>s.includes(t)\<close>.
\<close>

definition toLowerCase_char :: "char \<Rightarrow> char" where
  "toLowerCase_char c =
     (if 65 \<le> (of_char c :: nat) \<and> (of_char c :: nat) \<le> 90
      then char_of (of_char c + 32 :: nat) else c)"

definition toLowerCase :: "string \<Rightarrow> string" where
  "toLowerCase s = map toLowerCase_char s"

fun str_includes :: "string \<Rightarrow> string \<Rightarrow> bool" where
  "str_includes [] t = (t = [])"
| "str_includes (c # s) t = (take (length t) (c # s) = t \<or> str_includes s t)"

text \<open>
  \<^verbatim>\<open>dataTableFilter\<close>, the closure \<^verbatim>\<open>computeFilter\<close> returns; \<open>toStr\<close> is
  JavaScript's \<^verbatim>\<open>String(v)\<close> on the values of a row.
\<close>

definition dataTableFilter :: "('v \<Rightarrow> string) \<Rightarrow> string \<Rightarrow> 'v row \<Rightarrow> bool" where
  "dataTableFilter toStr searchString item =
     list_ex (\<lambda>v. str_includes (toLowerCase (toStr v)) searchString) (Object_values item)"

definition computeFilter :: "('v \<Rightarrow> string) \<Rightarrow> string \<Rightarrow> ('v row \<Rightarrow> bool) option" where
  "computeFilter toStr searchValue' =
     (if searchValue' = [] then None
      else Some (dataTableFilter toStr (toLowerCase searchValue')))"

text \<open>
  The effect \<^verbatim>\<open>applyFilter\<close> runs after mount and after every render in which
  \<^verbatim>\<open>currentFilter\<close> is a new value, that is, when the search value has changed.
\<close>

definition applyFilter :: "('v \<Rightarrow> string) \<Rightarrow> ('n, 'w, 'v) TableManager \<Rightarrow> ('n, 'w, 'v) TableManager" where
  "applyFilter toStr st =
     st\<lparr>dataSource := setFilter (computeFilter toStr (searchValue st)) (dataSource st)\<rparr>"

definition setSearchValue ::
  "('v \<Rightarrow> string) \<Rightarrow> string \<Rightarrow> ('n, 'w, 'v) TableManager \<Rightarrow> ('n, 'w, 'v) TableManager" where
  "setSearchValue toStr text' st =
     (if text' = searchValue st then st
      else applyFilter toStr (st\<lparr>searchValue := text'\<rparr>))"

subsection \<open>Selection\<close>

text \<open>
  \<^verbatim>\<open>selectItem\<close>; \<open>onSelect\<close> tells whether the optional callback was given
  (\<^verbatim>\<open>onSelect?.(item, newIndex)\<close> calls it only then).
\<close>

definition selectItem ::
  "bool \<Rightarrow> 'v row DataSourceView \<Rightarrow> (int \<Rightarrow> int) \<Rightarrow> ('n, 'w, 'v) TableManager \<Rightarrow>
   ('n, 'w, 'v) TableManager" where
  "selectItem onSelect ds updater st =
     (let newIndex = updater (selection st);
          item = (if newIndex \<ge> 0 \<and> newIndex < int (length (output ds))
                  then getItem ds newIndex else None)
      in st\<lparr>onSelectCalls :=
               (if onSelect then onSelectCalls st @ [(item, newIndex)] else onSelectCalls st),
             selection := newIndex\<rparr>)"

text \<open>
  \<^verbatim>\<open>onKeyDown\<close> of \<^verbatim>\<open>DataTable\<close>. \<open>virtualItems\<close> is
  \<^verbatim>\<open>virtualizerRef.current.virtualItems.length\<close>, \<open>None\<close> while the ref is unset
  (reading through it throws then). The boolean of the result is \<^verbatim>\<open>handled\<close>: the
  event is stopped and its default prevented.
\<close>

definition onKeyDown ::
  "bool \<Rightarrow> 'v row DataSourceView \<Rightarrow> int option \<Rightarrow> string \<Rightarrow> ('n, 'w, 'v) TableManager \<Rightarrow>
   error + (('n, 'w, 'v) TableManager \<times> bool)" where
  "onKeyDown onSelect ds virtualItems e_key st =
     (if e_key = ''ArrowUp'' then
        Inr (selectItem onSelect ds (\<lambda>idx. if idx > 0 then idx - 1 else 0) st, True)
      else if e_key = ''ArrowDown'' then
        Inr (selectItem onSelect ds
               (\<lambda>idx. if idx < int (length (output ds)) - 1 then idx + 1 else idx) st, True)
      else if e_key = ''Home'' then
        Inr (selectItem onSelect ds (\<lambda>_. 0) st, True)
      else if e_key = ''End'' then
        Inr (selectItem onSelect ds (\<lambda>_. int (length (output ds)) - 1) st, True)
      else if e_key = ''PageDown'' then
        (case virtualItems of
           None \<Rightarrow> Inl TypeError
         | Some v \<Rightarrow>
             Inr (selectItem onSelect ds
                    (\<lambda>idx. min (int (length (output ds)) - 1) (idx + v - 1)) st, True))
      else if e_key = ''PageUp'' then
        (case virtualItems of
           None \<Rightarrow> Inl TypeError
         | Some v \<Rightarrow> Inr (selectItem onSelect ds (\<lambda>idx. max 0 (idx - v - 1)) st, True))
      else Inr (st, False))"

subsection \<open>Runs of the manager\<close>

text \<open>
  The state after mount: the initial values of the \<^verbatim>\<open>useState\<close> cells, and the
  effect \<^verbatim>\<open>applyFilter\<close> run once. \<open>ds0\<close> is the configuration the data source
  comes with.
\<close>

definition mount ::
  "('v \<Rightarrow> string) \<Rightarrow> ('n, 'w) DataTableColumn list \<Rightarrow> 'v row DataSourceConfig \<Rightarrow>
   ('n, 'w, 'v) TableManager" where
  "mount toStr defaultColumns ds0 =
     applyFilter toStr
       \<lparr>columns = computeInitialColumns defaultColumns, selection = -1, sorting = None,
        searchValue = [], dataSource = ds0, onSelectCalls = []\<rparr>"

text \<open>
  What can happen to a mounted table: a call of one of the manager's callbacks, or a key
  pressed; the events that read the data source carry what it shows at that moment.
\<close>

datatype ('w, 'v) event =
    Reset
  | ResizeColumn string 'w
  | SortColumn string
  | ToggleColumnVisibility string
  | SetSearchValue string
  | SelectItem "int \<Rightarrow> int" "'v row DataSourceView"
  | KeyDown string "'v row DataSourceView" "int option"

fun step ::
  "('v \<Rightarrow> string) \<Rightarrow> ('n, 'w) DataTableColumn list \<Rightarrow> bool \<Rightarrow> ('w, 'v) event \<Rightarrow>
   ('n, 'w, 'v) TableManager \<Rightarrow> error + ('n, 'w, 'v) TableManager" where
  "step toStr defaultColumns onSelect Reset st = Inr (reset defaultColumns st)"
| "step toStr defaultColumns onSelect (ResizeColumn k w) st = resizeColumn k w st"
| "step toStr defaultColumns onSelect (SortColumn k) st = Inr (sortColumn k st)"
| "step toStr defaultColumns onSelect (ToggleColumnVisibility k) st = toggleColumnVisibility k st"
| "step toStr defaultColumns onSelect (SetSearchValue s) st = Inr (setSearchValue toStr s st)"
| "step toStr defaultColumns onSelect (SelectItem updater ds) st =
     Inr (selectItem onSelect ds updater st)"
| "step toStr defaultColumns onSelect (KeyDown k ds v) st =
     map_sum id fst (onKeyDown onSelect ds v k st)"

text \<open>A run stops at the first event that throws.\<close>

fun run ::
  "('v \<Rightarrow> string) \<Rightarrow> ('n, 'w) DataTableColumn list \<Rightarrow> bool \<Rightarrow> ('w, 'v) event list \<Rightarrow>
   ('n, 'w, 'v) TableManager \<Rightarrow> error + ('n, 'w, 'v) TableManager" where
  "run toStr defaultColumns onSelect [] st = Inr st"
| "run toStr defaultColumns onSelect (e # es) st =
     (case step toStr defaultColumns onSelect e st of
        Inl err \<Rightarrow> Inl err
      | Inr st' \<Rightarrow> run toStr defaultColumns onSelect es st')"

definition reachable ::
  "('v \<Rightarrow> string) \<Rightarrow> ('n, 'w) DataTableColumn list \<Rightarrow> bool \<Rightarrow> 'v row DataSourceConfig \<Rightarrow>
   ('w, 'v) event list \<Rightarrow> ('n, 'w, 'v) TableManager \<Rightarrow> bool" where
  "reachable toStr defaultColumns onSelect ds0 es st \<longleftrightarrow>
     run toStr defaultColumns onSelect es (mount toStr defaultColumns ds0) = Inr st"

subsection \<open>A small table\<close>

text \<open>
  Two columns, the second hidden by default, over rows whose values are strings
  (\<^verbatim>\<open>String(v)\<close> is \<open>v\<close> for a string), as the data source comes before any call.
\<close>

definition example_columns :: "(unit, int) DataTableColumn list" where
  "example_columns =
     [\<lparr>key = ''name'', onRender = None, title = Some ''Name'', width = None, wrap = None,
       align = None, visible = None\<rparr>,
      \<lparr>key = ''city'', onRender = None, title = None, width = Some 80, wrap = Some True,
       align = Some Right, visible = Some False\<rparr>]"

definition example_ds0 :: "string row DataSourceConfig" where
  "example_ds0 = \<lparr>filterBy = None, sortBy = None, reversed = False, resets = 0\<rparr>"

definition example_rows :: "string row list" where
  "example_rows = [[(''name'', ''Alice'')], [(''name'', ''bob'')]]"

definition example_view :: "string row DataSourceView" where
  "example_view =
     \<lparr>output = example_rows,
      getItem = (\<lambda>i. if 0 \<le> i \<and> i < 2 then Some (example_rows ! nat i) else None)\<rparr>"

definition example_state :: "(unit, int, string) TableManager" where
  "example_state = mount (\<lambda>v. v) example_columns example_ds0"

text \<open>Some events on that table: a column shown, a column resized, a sort, a search.\<close>

definition example_events :: "(int, string) event list" where
  "example_events =
     [ToggleColumnVisibility ''city'', ResizeColumn ''name'' 120, SortColumn ''name'',
      SetSearchValue ''AL'']"

definition example_reached :: "(unit, int, string) TableManager" where
  "example_reached = projr (run (\<lambda>v. v) example_columns False example_events example_state)"

section \<open>The sort cycle\<close>

lemma sortColumn_other:
  "map_option sortKey (sorting st) \<noteq> Some k \<Longrightarrow>
   sortColumn k st =
     st\<lparr>sorting := Some \<lparr>sortKey = k, direction = down\<rparr>,
        dataSource := setReversed False (setSortBy (Some k) (dataSource st))\<rparr>"
  by (cases "sorting st") (simp_all add: sortColumn_def)

lemma sortColumn_down:
  "sorting st = Some \<lparr>sortKey = k, direction = down\<rparr> \<Longrightarrow>
   sortColumn k st =
     st\<lparr>sorting := Some \<lparr>sortKey = k, direction = up\<rparr>,
        dataSource := setReversed True (dataSource st)\<rparr>"
  by (simp add: sortColumn_def)

lemma sortColumn_up:
  "sorting st = Some \<lparr>sortKey = k, direction = up\<rparr> \<Longrightarrow>
   sortColumn k st =
     st\<lparr>sorting := None,
        dataSource := setReversed False (setSortBy None (dataSource st))\<rparr>"
  by (simp add: sortColumn_def)

text \<open>
  C2. From a state in which \<open>k\<close> is not the sorted key, three calls of
  \<^verbatim>\<open>sortColumn(k)\<close> go through \<open>{key: k, direction: down}\<close> (descending) with the data
  source sorted by \<open>k\<close> and not reversed, then \<open>{key: k, direction: up}\<close> (ascending) with
  the data source reversed, and end with no sorting, the data source having no sort key
  and not being reversed.
\<close>

theorem sortColumn_cycle:
  assumes "map_option sortKey (sorting st) \<noteq> Some k"
  shows "sorting (sortColumn k st) = Some \<lparr>sortKey = k, direction = down\<rparr> \<and>
         sortBy (dataSource (sortColumn k st)) = Some k \<and>
         reversed (dataSource (sortColumn k st)) = False \<and>
         sorting (sortColumn k (sortColumn k st)) = Some \<lparr>sortKey = k, direction = up\<rparr> \<and>
         sortBy (dataSource (sortColumn k (sortColumn k st))) = Some k \<and>
         reversed (dataSource (sortColumn k (sortColumn k st))) = True \<and>
         sorting (sortColumn k (sortColumn k (sortColumn k st))) = None \<and>
         sortBy (dataSource (sortColumn k (sortColumn k (sortColumn k st)))) = None \<and>
         reversed (dataSource (sortColumn k (sortColumn k (sortColumn k st)))) = False"
proof -
  define s1 where "s1 = sortColumn k st"
  define s2 where "s2 = sortColumn k s1"
  define s3 where "s3 = sortColumn k s2"
  have e1: "s1 = st\<lparr>sorting := Some \<lparr>sortKey = k, direction = down\<rparr>,
                    dataSource := setReversed False (setSortBy (Some k) (dataSource st))\<rparr>"
    unfolding s1_def using assms by (rule sortColumn_other)
  have a1: "sorting s1 = Some \<lparr>sortKey = k, direction = down\<rparr>"
    and b1: "sortBy (dataSource s1) = Some k" and c1: "reversed (dataSource s1) = False"
    by (simp_all add: e1 setReversed_def setSortBy_def)
  have e2: "s2 = s1\<lparr>sorting := Some \<lparr>sortKey = k, direction = up\<rparr>,
                    dataSource := setReversed True (dataSource s1)\<rparr>"
    unfolding s2_def using a1 by (rule sortColumn_down)
  have a2: "sorting s2 = Some \<lparr>sortKey = k, direction = up\<rparr>"
    and b2: "sortBy (dataSource s2) = Some k" and c2: "reversed (dataSource s2) = True"
    using b1 by (simp_all add: e2 setReversed_def)
  have e3: "s3 = s2\<lparr>sorting := None,
                    dataSource := setReversed False (setSortBy None (dataSource s2))\<rparr>"
    unfolding s3_def using a2 by (rule sortColumn_up)
  have a3: "sorting s3 = None"
    and b3: "sortBy (dataSource s3) = None" and c3: "reversed (dataSource s3) = False"
    by (simp_all add: e3 setReversed_def setSortBy_def)
  show ?thesis
    using a1 b1 c1 a2 b2 c2 a3 b3 c3 unfolding s3_def s2_def s1_def by simp
qed

theorem sortColumn_cycle_witness:
  "map_option sortKey (sorting example_state) \<noteq> Some ''name'' \<and>
   sorting (sortColumn ''name'' example_state) = Some \<lparr>sortKey = ''name'', direction = down\<rparr> \<and>
   reversed (dataSource (sortColumn ''name'' (sortColumn ''name'' example_state))) = True \<and>
   sorting (sortColumn ''name'' (sortColumn ''name'' (sortColumn ''name'' example_state))) = None \<and>
   sortBy (dataSource (sortColumn ''name'' (sortColumn ''name'' (sortColumn ''name'' example_state)))) = None"
proof -
  have h: "map_option sortKey (sorting example_state) \<noteq> Some ''name''"
    by (simp add: example_state_def mount_def applyFilter_def)
  show ?thesis
    using h sortColumn_cycle [OF h] by simp
qed

lemma sortColumn_key:
  "map_option sortKey (sorting (sortColumn k st)) = None \<or>
   map_option sortKey (sorting (sortColumn k st)) = Some k"
  by (cases "sorting st") (simp_all add: sortColumn_def)

text \<open>
  C9. For two different keys, \<^verbatim>\<open>sortColumn(k1)\<close> followed by \<^verbatim>\<open>sortColumn(k2)\<close>
  ends with the sorting \<open>{key: k2, direction: down}\<close> (descending), the data source sorted
  by \<open>k2\<close> and not reversed, whatever the sorting was before the first call.
\<close>

theorem sortColumn_switch:
  assumes "k1 \<noteq> k2"
  shows "sorting (sortColumn k2 (sortColumn k1 st)) = Some \<lparr>sortKey = k2, direction = down\<rparr> \<and>
         sortBy (dataSource (sortColumn k2 (sortColumn k1 st))) = Some k2 \<and>
         reversed (dataSource (sortColumn k2 (sortColumn k1 st))) = False"
proof -
  have "map_option sortKey (sorting (sortColumn k1 st)) \<noteq> Some k2"
    using assms sortColumn_key [of k1 st] by auto
  then have "sortColumn k2 (sortColumn k1 st) =
      (sortColumn k1 st)\<lparr>sorting := Some \<lparr>sortKey = k2, direction = down\<rparr>,
        dataSource := setReversed False (setSortBy (Some k2) (dataSource (sortColumn k1 st)))\<rparr>"
    by (rule sortColumn_other)
  then show ?thesis
    by (simp add: setReversed_def setSortBy_def)
qed

theorem sortColumn_switch_witness:
  "''name'' \<noteq> ''city'' \<and>
   sorting (sortColumn ''name'' example_state) = Some \<lparr>sortKey = ''name'', direction = down\<rparr> \<and>
   sorting (sortColumn ''city'' (sortColumn ''name'' (sortColumn ''name'' example_state))) =
     Some \<lparr>sortKey = ''city'', direction = down\<rparr> \<and>
   sortBy (dataSource (sortColumn ''city'' (sortColumn ''name'' (sortColumn ''name'' example_state)))) =
     Some ''city'' \<and>
   reversed (dataSource (sortColumn ''city'' (sortColumn ''name'' (sortColumn ''name'' example_state)))) =
     False"
proof -
  have h: "''name'' \<noteq> ''city''" by simp
  have "sorting (sortColumn ''name'' example_state) = Some \<lparr>sortKey = ''name'', direction = down\<rparr>"
    by (simp add: example_state_def mount_def applyFilter_def sortColumn_def)
  then show ?thesis
    using h sortColumn_switch [OF h, of "sortColumn ''name'' example_state"] by simp
qed

section \<open>Selection\<close>

text \<open>
  C1. \<^verbatim>\<open>selectItem(updater)\<close> with \<open>N\<close> the value of the updater at the current
  selection: the callback \<^verbatim>\<open>onSelect\<close>, when one was given, is called once more, with
  \<^verbatim>\<open>dataSource.getItem(N)\<close> if \<open>0 \<le> N < output.length\<close> and with \<^verbatim>\<open>undefined\<close>
  otherwise, together with \<open>N\<close>; without a callback nothing is called. In both cases
  \<open>N\<close> becomes the selection as it is, inside the output or not, and nothing else of the
  state changes.
\<close>

theorem selectItem_commits:
  "selection (selectItem onSelect ds updater st) = updater (selection st) \<and>
   onSelectCalls (selectItem True ds updater st) =
     onSelectCalls st @
       [(if 0 \<le> updater (selection st) \<and> updater (selection st) < int (length (output ds))
         then getItem ds (updater (selection st)) else None,
         updater (selection st))] \<and>
   onSelectCalls (selectItem False ds updater st) = onSelectCalls st \<and>
   columns (selectItem onSelect ds updater st) = columns st \<and>
   sorting (selectItem onSelect ds updater st) = sorting st \<and>
   searchValue (selectItem onSelect ds updater st) = searchValue st \<and>
   dataSource (selectItem onSelect ds updater st) = dataSource st"
  by (simp add: selectItem_def Let_def)

lemma selectItem_out_of_range_example:
  "selection (selectItem True example_view (\<lambda>_. 7) example_state) = 7 \<and>
   onSelectCalls (selectItem True example_view (\<lambda>_. 7) example_state) = [(None, 7)] \<and>
   selection (selectItem True example_view (\<lambda>_. - 3) example_state) = - 3 \<and>
   onSelectCalls (selectItem True example_view (\<lambda>_. - 3) example_state) = [(None, - 3)] \<and>
   onSelectCalls (selectItem True example_view (\<lambda>_. 1) example_state) =
     [(Some [(''name'', ''bob'')], 1)]"
  by (simp add: selectItem_def Let_def example_view_def example_rows_def example_state_def
      mount_def applyFilter_def)

section \<open>Keys that name no column\<close>

lemma find_col_None: "find_col k cs = None \<longleftrightarrow> k \<notin> key ` set cs"
  by (induction cs) auto

lemma find_col_Some:
  "find_col k cs = Some i \<Longrightarrow> i < length cs \<and> key (cs ! i) = k \<and> (\<forall>j<i. key (cs ! j) \<noteq> k)"
proof (induction cs arbitrary: i)
  case Nil
  then show ?case by simp
next
  case (Cons c cs)
  show ?case
  proof (cases "key c = k")
    case True
    with Cons.prems show ?thesis by simp
  next
    case False
    with Cons.prems obtain i' where i': "find_col k cs = Some i'" "i = Suc i'"
      by auto
    from Cons.IH [OF i'(1)] False i'(2) show ?thesis
      by (auto simp: nth_Cons split: nat.splits)
  qed
qed

text \<open>
  C3, as the code has it. When no column has the key \<open>k\<close>, \<^verbatim>\<open>resizeColumn(k, w)\<close>
  does not return a column set: the recipe writes \<^verbatim>\<open>width\<close> on the \<^verbatim>\<open>undefined\<close>
  that \<^verbatim>\<open>find\<close> gave, which throws a TypeError. When a column has the key, the first
  such column gets the width \<open>w\<close> and nothing else changes.
\<close>

theorem resizeColumn_missing_key:
  "(k \<notin> key ` set (columns st) \<longrightarrow> resizeColumn k w st = Inl TypeError) \<and>
   (k \<in> key ` set (columns st) \<longrightarrow>
      (\<exists>i < length (columns st).
         key (columns st ! i) = k \<and> (\<forall>j<i. key (columns st ! j) \<noteq> k) \<and>
         resizeColumn k w st =
           Inr (st\<lparr>columns := (columns st)[i := (columns st ! i)\<lparr>width := Some w\<rparr>]\<rparr>)))"
proof (cases "find_col k (columns st)")
  case None
  then have "k \<notin> key ` set (columns st)"
    by (simp add: find_col_None)
  moreover have "resizeColumn k w st = Inl TypeError"
    using None by (simp add: resizeColumn_def)
  ultimately show ?thesis
    by simp
next
  case (Some i)
  then have "k \<in> key ` set (columns st)"
    using find_col_None [of k "columns st"] by auto
  moreover have "resizeColumn k w st =
      Inr (st\<lparr>columns := (columns st)[i := (columns st ! i)\<lparr>width := Some w\<rparr>]\<rparr>)"
    using Some by (simp add: resizeColumn_def)
  ultimately show ?thesis
    using find_col_Some [OF Some] by blast
qed

theorem resizeColumn_missing_key_witness:
  "''nope'' \<notin> key ` set (columns example_state) \<and>
   resizeColumn ''nope'' 10 example_state = Inl TypeError \<and>
   ''city'' \<in> key ` set (columns example_state) \<and>
   map width (columns (projr (resizeColumn ''city'' 10 example_state))) = [None, Some 10]"
proof -
  have cols: "columns example_state = computeInitialColumns example_columns"
    by (simp add: example_state_def mount_def applyFilter_def)
  have h1: "''nope'' \<notin> key ` set (columns example_state)"
    by (simp add: cols computeInitialColumns_def example_columns_def)
  have h2: "''city'' \<in> key ` set (columns example_state)"
    by (simp add: cols computeInitialColumns_def example_columns_def)
  have "resizeColumn ''nope'' 10 example_state = Inl TypeError"
    using h1 resizeColumn_missing_key [of "''nope''" example_state 10] by simp
  moreover have "map width (columns (projr (resizeColumn ''city'' 10 example_state))) = [None, Some 10]"
    by (simp add: resizeColumn_def cols computeInitialColumns_def example_columns_def)
  ultimately show ?thesis
    using h1 h2 by simp
qed

text \<open>
  The claim as the spec has it (a call with an unknown key returns the state unchanged)
  fails on the table of two columns.
\<close>

theorem resizeColumn_not_a_noop:
  "''nope'' \<notin> key ` set (columns example_state) \<and>
   resizeColumn ''nope'' 10 example_state \<noteq> Inr example_state \<and>
   resizeColumn ''nope'' 10 example_state = Inl TypeError"
  by (simp add: resizeColumn_def example_state_def mount_def applyFilter_def
      computeInitialColumns_def example_columns_def)

section \<open>Keys of the keyboard\<close>

text \<open>
  C4, as the code has it. \<^verbatim>\<open>ArrowDown\<close> is handled, and selects
  \<open>idx + 1\<close> when \<open>idx < L - 1\<close> and \<open>idx\<close> itself otherwise, \<open>L\<close> being
  \<^verbatim>\<open>output.length\<close>. This is \<open>min (idx + 1) (L - 1)\<close> for every \<open>idx \<le> L - 1\<close>, and lies
  in \<open>[0, L - 1]\<close> when moreover \<open>- 1 \<le> idx\<close> and the output is not empty. An index above
  \<open>L - 1\<close> stays where it is.
\<close>

theorem onKeyDown_ArrowDown:
  "onKeyDown onSelect ds v ''ArrowDown'' st =
     Inr (selectItem onSelect ds
            (\<lambda>idx. if idx < int (length (output ds)) - 1 then idx + 1 else idx) st, True) \<and>
   (selection st \<le> int (length (output ds)) - 1 \<longrightarrow>
      selection (fst (projr (onKeyDown onSelect ds v ''ArrowDown'' st))) =
        min (selection st + 1) (int (length (output ds)) - 1)) \<and>
   (- 1 \<le> selection st \<and> selection st \<le> int (length (output ds)) - 1 \<and> output ds \<noteq> [] \<longrightarrow>
      0 \<le> selection (fst (projr (onKeyDown onSelect ds v ''ArrowDown'' st))) \<and>
      selection (fst (projr (onKeyDown onSelect ds v ''ArrowDown'' st))) \<le> int (length (output ds)) - 1) \<and>
   (selection st > int (length (output ds)) - 1 \<longrightarrow>
      selection (fst (projr (onKeyDown onSelect ds v ''ArrowDown'' st))) = selection st)"
proof -
  have k: "onKeyDown onSelect ds v ''ArrowDown'' st =
     Inr (selectItem onSelect ds
            (\<lambda>idx. if idx < int (length (output ds)) - 1 then idx + 1 else idx) st, True)"
    by (simp add: onKeyDown_def)
  have s: "selection (fst (projr (onKeyDown onSelect ds v ''ArrowDown'' st))) =
      (if selection st < int (length (output ds)) - 1 then selection st + 1 else selection st)"
    by (simp add: k selectItem_def Let_def)
  have "output ds \<noteq> [] \<Longrightarrow> 1 \<le> int (length (output ds))"
    by (cases "output ds") simp_all
  then show ?thesis
    unfolding s using k by auto
qed

theorem onKeyDown_ArrowDown_witness:
  "selection example_state \<le> int (length (output example_view)) - 1 \<and>
   - 1 \<le> selection example_state \<and> output example_view \<noteq> [] \<and>
   selection (fst (projr (onKeyDown False example_view None ''ArrowDown'' example_state))) = 0 \<and>
   selection (example_state\<lparr>selection := 7\<rparr>) > int (length (output example_view)) - 1 \<and>
   selection (fst (projr (onKeyDown False example_view None ''ArrowDown''
     (example_state\<lparr>selection := 7\<rparr>)))) = 7"
proof -
  have sel: "selection example_state = - 1"
    by (simp add: example_state_def mount_def applyFilter_def)
  have len: "int (length (output example_view)) = 2" "output example_view \<noteq> []"
    by (simp_all add: example_view_def example_rows_def)
  show ?thesis
    using onKeyDown_ArrowDown [of False example_view None example_state, THEN conjunct2]
      onKeyDown_ArrowDown [of False example_view None "example_state\<lparr>selection := 7\<rparr>",
        THEN conjunct2]
    by (simp add: sel len)
qed

text \<open>
  The claim as the spec has it (the selection after \<^verbatim>\<open>ArrowDown\<close> is
  \<open>min (idx + 1) (L - 1)\<close>, at most \<open>L - 1\<close>) fails once the selection is above the output:
  row 7 is selected, the output shows two rows, and \<^verbatim>\<open>ArrowDown\<close> keeps 7.
\<close>

theorem onKeyDown_ArrowDown_not_clamped:
  "run (\<lambda>v. v) example_columns False
     [SelectItem (\<lambda>_. 7) example_view, KeyDown ''ArrowDown'' example_view None]
     (mount (\<lambda>v. v) example_columns example_ds0) =
     Inr (example_state\<lparr>selection := 7\<rparr>) \<and>
   selection (example_state\<lparr>selection := 7\<rparr>) \<noteq> min (7 + 1) (int (length (output example_view)) - 1) \<and>
   \<not> selection (example_state\<lparr>selection := 7\<rparr>) \<le> int (length (output example_view)) - 1"
  by (simp add: onKeyDown_def selectItem_def Let_def example_state_def example_view_def
      example_rows_def)

text \<open>
  C8. \<^verbatim>\<open>PageUp\<close>, with \<open>v\<close> rows rendered at the moment the key is handled, is
  handled and selects \<open>max 0 (idx - v - 1)\<close>. With 20 rows in the output and 5 rendered,
  \<^verbatim>\<open>End\<close> selects 19 and \<^verbatim>\<open>PageUp\<close> after it selects 13.
\<close>

theorem onKeyDown_PageUp:
  "onKeyDown onSelect ds (Some v) ''PageUp'' st =
     Inr (selectItem onSelect ds (\<lambda>idx. max 0 (idx - v - 1)) st, True) \<and>
   selection (fst (projr (onKeyDown onSelect ds (Some v) ''PageUp'' st))) =
     max 0 (selection st - v - 1) \<and>
   (length (output ds) = 20 \<longrightarrow>
      selection (fst (projr (onKeyDown onSelect ds (Some 5) ''End'' st))) = 19 \<and>
      selection (fst (projr (onKeyDown onSelect ds (Some 5) ''PageUp''
        (fst (projr (onKeyDown onSelect ds (Some 5) ''End'' st)))))) = 13)"
  by (simp add: onKeyDown_def selectItem_def Let_def)

theorem onKeyDown_PageUp_witness:
  "length (output \<lparr>output = replicate 20 [(''name'', ''row'')], getItem = (\<lambda>_. None)\<rparr>) = 20 \<and>
   selection (fst (projr (onKeyDown False
     \<lparr>output = replicate 20 [(''name'', ''row'')], getItem = (\<lambda>_. None)\<rparr>
     (Some 5) ''End'' example_state))) = 19 \<and>
   selection (fst (projr (onKeyDown False
     \<lparr>output = replicate 20 [(''name'', ''row'')], getItem = (\<lambda>_. None)\<rparr> (Some 5) ''PageUp''
     (fst (projr (onKeyDown False
       \<lparr>output = replicate 20 [(''name'', ''row'')], getItem = (\<lambda>_. None)\<rparr>
       (Some 5) ''End'' example_state)))))) = 13"
proof -
  have h: "length (output \<lparr>output = replicate 20 [(''name'', ''row'')],
      getItem = (\<lambda>_. None :: string row option)\<rparr>) = 20"
    by simp
  show ?thesis
    using h onKeyDown_PageUp [of False
        "\<lparr>output = replicate 20 [(''name'', ''row'')], getItem = (\<lambda>_. None)\<rparr>" 5 example_state,
        THEN conjunct2, THEN conjunct2]
    by simp
qed

section \<open>The search filter\<close>

lemma str_includes_iff: "str_includes s t \<longleftrightarrow> (\<exists>ps ss. s = ps @ t @ ss)"
proof (induction s)
  case Nil
  show ?case by auto
next
  case (Cons c s)
  have a: "take (length t) (c # s) = t \<longleftrightarrow> (\<exists>ss. c # s = t @ ss)"
    by (metis append_eq_conv_conj)
  have b: "(\<exists>ps ss. c # s = ps @ t @ ss) \<longleftrightarrow> (\<exists>ss. c # s = t @ ss) \<or> (\<exists>ps ss. s = ps @ t @ ss)"
  proof
    assume "\<exists>ps ss. c # s = ps @ t @ ss"
    then obtain ps ss where e: "c # s = ps @ t @ ss" by blast
    show "(\<exists>ss. c # s = t @ ss) \<or> (\<exists>ps ss. s = ps @ t @ ss)"
    proof (cases ps)
      case Nil
      with e show ?thesis by auto
    next
      case (Cons p ps')
      with e have "s = ps' @ t @ ss" by simp
      then show ?thesis by blast
    qed
  next
    assume "(\<exists>ss. c # s = t @ ss) \<or> (\<exists>ps ss. s = ps @ t @ ss)"
    then show "\<exists>ps ss. c # s = ps @ t @ ss"
    proof
      assume "\<exists>ss. c # s = t @ ss"
      then obtain ss where "c # s = [] @ t @ ss" by auto
      then show ?thesis by blast
    next
      assume "\<exists>ps ss. s = ps @ t @ ss"
      then obtain ps ss where "c # s = (c # ps) @ t @ ss" by auto
      then show ?thesis by blast
    qed
  qed
  show ?case
    using Cons.IH a b by simp
qed

lemma dataTableFilter_iff:
  "dataTableFilter toStr t item \<longleftrightarrow>
     (\<exists>v \<in> set (Object_values item). \<exists>ps ss. toLowerCase (toStr v) = ps @ t @ ss)"
  by (simp add: dataTableFilter_def list_ex_iff str_includes_iff)

lemma example_rows_filtered:
  "filter (dataTableFilter (\<lambda>v. v) (toLowerCase ''AL'')) example_rows = [[(''name'', ''Alice'')]]"
  by code_simp

text \<open>
  C5. For a search value \<open>s\<close> that is not empty the filter is a predicate, which accepts
  a row exactly when the lowercased string of one of the row's values has the lowercased
  \<open>s\<close> as a substring; for the empty search value the filter is \<^verbatim>\<open>undefined\<close>. A new
  search value pushes its filter to the data source, \<^verbatim>\<open>undefined\<close> for the empty one.
  Of the rows \<open>{name: "Alice"}\<close> and \<open>{name: "bob"}\<close> the filter of the search value
  \<open>"AL"\<close> keeps the first only.
\<close>

theorem computeFilter_substring:
  "(s \<noteq> [] \<longrightarrow>
      (\<exists>p. computeFilter toStr s = Some p \<and>
           (\<forall>item. p item \<longleftrightarrow>
              (\<exists>v \<in> set (Object_values item).
                 \<exists>ps ss. toLowerCase (toStr v) = ps @ toLowerCase s @ ss)))) \<and>
   computeFilter toStr [] = None \<and>
   (s \<noteq> searchValue st \<longrightarrow>
      filterBy (dataSource (setSearchValue toStr s st)) = computeFilter toStr s) \<and>
   filterBy (dataSource (mount toStr defaultColumns ds0)) = None \<and>
   (\<exists>p. filterBy (dataSource (setSearchValue (\<lambda>v. v) ''AL''
            (mount (\<lambda>v. v) defaultColumns ds0))) = Some p \<and>
        filter p example_rows = [[(''name'', ''Alice'')]])"
proof -
  have 1: "s \<noteq> [] \<longrightarrow>
      (\<exists>p. computeFilter toStr s = Some p \<and>
           (\<forall>item. p item \<longleftrightarrow>
              (\<exists>v \<in> set (Object_values item).
                 \<exists>ps ss. toLowerCase (toStr v) = ps @ toLowerCase s @ ss)))"
    by (simp add: computeFilter_def dataTableFilter_iff)
  have 2: "computeFilter toStr [] = None"
    by (simp add: computeFilter_def)
  have 3: "s \<noteq> searchValue st \<longrightarrow>
      filterBy (dataSource (setSearchValue toStr s st)) = computeFilter toStr s"
    by (simp add: setSearchValue_def applyFilter_def setFilter_def)
  have 4: "filterBy (dataSource (mount toStr defaultColumns ds0)) = None"
    by (simp add: mount_def applyFilter_def setFilter_def computeFilter_def)
  have "filterBy (dataSource (setSearchValue (\<lambda>v. v) ''AL'' (mount (\<lambda>v. v) defaultColumns ds0))) =
      Some (dataTableFilter (\<lambda>v. v) (toLowerCase ''AL''))"
    by (simp add: setSearchValue_def mount_def applyFilter_def setFilter_def computeFilter_def)
  then have 5: "\<exists>p. filterBy (dataSource (setSearchValue (\<lambda>v. v) ''AL''
            (mount (\<lambda>v. v) defaultColumns ds0))) = Some p \<and>
        filter p example_rows = [[(''name'', ''Alice'')]]"
    using example_rows_filtered by simp
  show ?thesis
    using 1 2 3 4 5 by blast
qed

theorem computeFilter_substring_witness:
  "''AL'' \<noteq> [] \<and> ''AL'' \<noteq> searchValue example_state \<and>
   (\<exists>p. computeFilter (\<lambda>v. v) ''AL'' = Some p \<and>
        filterBy (dataSource (setSearchValue (\<lambda>v. v) ''AL'' example_state)) = Some p \<and>
        p [(''name'', ''Alice'')])"
proof -
  have h1: "''AL'' \<noteq> []" by simp
  have h2: "''AL'' \<noteq> searchValue example_state"
    by (simp add: example_state_def mount_def applyFilter_def)
  have lc: "toLowerCase ''Alice'' = [] @ toLowerCase ''AL'' @ ''ice''"
    by code_simp
  note t = computeFilter_substring [of "''AL''" "\<lambda>v. v" example_state example_columns example_ds0]
  from t h1 obtain p where p: "computeFilter (\<lambda>v. v) ''AL'' = Some p"
    and iff: "\<And>item. p item \<longleftrightarrow>
      (\<exists>v \<in> set (Object_values item). \<exists>ps ss. toLowerCase v = ps @ toLowerCase ''AL'' @ ss)"
    by blast
  have "''Alice'' \<in> set (Object_values [(''name'', ''Alice'')])"
    by (simp add: Object_values_def)
  with lc have "p [(''name'', ''Alice'')]"
    unfolding iff by blast
  moreover from t h2 p
  have "filterBy (dataSource (setSearchValue (\<lambda>v. v) ''AL'' example_state)) = Some p"
    by simp
  ultimately show ?thesis
    using h1 h2 p by blast
qed

section \<open>Invariants of the runs\<close>

lemma run_invariant:
  assumes "run toStr dflt onSelect es st = Inr st'"
    and "P st"
    and "\<And>e s s'. e \<in> set es \<Longrightarrow> P s \<Longrightarrow> step toStr dflt onSelect e s = Inr s' \<Longrightarrow> P s'"
  shows "P st'"
  using assms
proof (induction es arbitrary: st)
  case Nil
  then show ?case by simp
next
  case (Cons e es)
  from Cons.prems(1) obtain s1 where s1: "step toStr dflt onSelect e st = Inr s1"
    and r: "run toStr dflt onSelect es s1 = Inr st'"
    by (auto split: sum.splits)
  have p1: "P s1"
    using Cons.prems(3) [of e st s1] Cons.prems(2) s1 by simp
  have "\<And>e' s s'. e' \<in> set es \<Longrightarrow> P s \<Longrightarrow> step toStr dflt onSelect e' s = Inr s' \<Longrightarrow> P s'"
    using Cons.prems(3) by (meson list.set_intros(2))
  with r p1 show ?case
    by (rule Cons.IH)
qed

lemma run_append:
  "run toStr dflt onSelect (es @ es') st =
     (case run toStr dflt onSelect es st of
        Inl err \<Rightarrow> Inl err
      | Inr st' \<Rightarrow> run toStr dflt onSelect es' st')"
  by (induction es arbitrary: st) (auto split: sum.splits)

lemma columns_mount: "columns (mount toStr dflt ds0) = computeInitialColumns dflt"
  by (simp add: mount_def applyFilter_def)

lemma columns_sortColumn: "columns (sortColumn k st) = columns st"
  by (simp add: sortColumn_def)

lemma columns_selectItem: "columns (selectItem onSelect ds updater st) = columns st"
  by (simp add: selectItem_def Let_def)

lemma columns_setSearchValue: "columns (setSearchValue toStr t st) = columns st"
  by (simp add: setSearchValue_def applyFilter_def)

lemma columns_onKeyDown:
  "onKeyDown onSelect ds v k st = Inr (st', h) \<Longrightarrow> columns st' = columns st"
  by (auto simp: onKeyDown_def columns_selectItem split: if_splits option.splits)

lemma columns_step:
  assumes "step toStr dflt onSelect e s = Inr s'"
  shows "columns s' = columns s \<or> columns s' = computeInitialColumns dflt \<or>
         (\<exists>i w. i < length (columns s) \<and>
            columns s' = (columns s)[i := (columns s ! i)\<lparr>width := Some w\<rparr>]) \<or>
         (\<exists>i. i < length (columns s) \<and>
            columns s' =
              (columns s)[i := (columns s ! i)\<lparr>visible := Some (\<not> truthy (visible (columns s ! i)))\<rparr>])"
proof (cases e)
  case Reset
  with assms show ?thesis by (auto simp: reset_def)
next
  case (ResizeColumn k w)
  with assms obtain i where i: "find_col k (columns s) = Some i"
    and s': "s' = s\<lparr>columns := (columns s)[i := (columns s ! i)\<lparr>width := Some w\<rparr>]\<rparr>"
    by (auto simp: resizeColumn_def split: option.splits)
  from find_col_Some [OF i] have "i < length (columns s)" by simp
  with s' show ?thesis by auto
next
  case (SortColumn k)
  with assms show ?thesis by (auto simp: columns_sortColumn)
next
  case (ToggleColumnVisibility k)
  with assms obtain i where i: "find_col k (columns s) = Some i"
    and s': "s' = s\<lparr>columns :=
        (columns s)[i := (columns s ! i)\<lparr>visible := Some (\<not> truthy (visible (columns s ! i)))\<rparr>]\<rparr>"
    by (auto simp: toggleColumnVisibility_def split: option.splits)
  from find_col_Some [OF i] have "i < length (columns s)" by simp
  with s' show ?thesis by auto
next
  case (SetSearchValue t)
  with assms show ?thesis by (auto simp: columns_setSearchValue)
next
  case (SelectItem u ds)
  with assms show ?thesis by (auto simp: columns_selectItem)
next
  case (KeyDown k ds v)
  with assms obtain h where "onKeyDown onSelect ds v k s = Inr (s', h)"
    by (cases "onKeyDown onSelect ds v k s") auto
  then show ?thesis
    by (simp add: columns_onKeyDown)
qed

lemma step_keeps_keys:
  assumes "step toStr dflt onSelect e s = Inr s'" and "map key (columns s) = map key dflt"
  shows "map key (columns s') = map key dflt"
proof -
  have "map key (computeInitialColumns dflt) = map key dflt"
    by (simp add: computeInitialColumns_def)
  moreover have "map key ((columns s)[i := (columns s ! i)\<lparr>width := w\<rparr>]) = map key (columns s)"
    if "i < length (columns s)" for i w
    using that by (simp add: map_update list_update_same_conv)
  moreover have "map key ((columns s)[i := (columns s ! i)\<lparr>visible := b\<rparr>]) = map key (columns s)"
    if "i < length (columns s)" for i b
    using that by (simp add: map_update list_update_same_conv)
  ultimately show ?thesis
    using columns_step [OF assms(1)] assms(2) by auto
qed

lemma step_keeps_boolean:
  assumes "step toStr dflt onSelect e s = Inr s'" and "\<forall>c \<in> set (columns s). visible c \<noteq> None"
  shows "\<forall>c \<in> set (columns s'). visible c \<noteq> None"
proof -
  have "\<forall>c \<in> set (computeInitialColumns dflt). visible c \<noteq> None"
    by (simp add: computeInitialColumns_def)
  moreover have "\<forall>c \<in> set ((columns s)[i := (columns s ! i)\<lparr>width := w\<rparr>]). visible c \<noteq> None"
    if "i < length (columns s)" for i w
  proof
    fix c assume "c \<in> set ((columns s)[i := (columns s ! i)\<lparr>width := w\<rparr>])"
    then have "c = (columns s ! i)\<lparr>width := w\<rparr> \<or> c \<in> set (columns s)"
      using set_update_subset_insert [of "columns s" i] by auto
    then show "visible c \<noteq> None"
      using assms(2) that by auto
  qed
  moreover have "\<forall>c \<in> set ((columns s)[i := (columns s ! i)\<lparr>visible := Some b\<rparr>]). visible c \<noteq> None"
    for i b
  proof
    fix c assume "c \<in> set ((columns s)[i := (columns s ! i)\<lparr>visible := Some b\<rparr>])"
    then have "c = (columns s ! i)\<lparr>visible := Some b\<rparr> \<or> c \<in> set (columns s)"
      using set_update_subset_insert [of "columns s" i] by auto
    then show "visible c \<noteq> None"
      using assms(2) by auto
  qed
  ultimately show ?thesis
    using columns_step [OF assms(1)] assms(2) by metis
qed

lemma sorting_setSearchValue: "sorting (setSearchValue toStr t st) = sorting st"
  by (simp add: setSearchValue_def applyFilter_def)

lemma sorting_selectItem: "sorting (selectItem onSelect ds updater st) = sorting st"
  by (simp add: selectItem_def Let_def)

lemma sorting_onKeyDown:
  "onKeyDown onSelect ds v k st = Inr (st', h) \<Longrightarrow> sorting st' = sorting st"
  by (auto simp: onKeyDown_def sorting_selectItem split: if_splits option.splits)

lemma sorting_step:
  assumes "step toStr dflt onSelect e s = Inr s'"
  shows "sorting s' = sorting s \<or> sorting s' = None \<or>
         (\<exists>k d. e = SortColumn k \<and> sorting s' = Some \<lparr>sortKey = k, direction = d\<rparr>)"
proof (cases e)
  case Reset
  with assms show ?thesis by (auto simp: reset_def)
next
  case (ResizeColumn k w)
  with assms show ?thesis by (auto simp: resizeColumn_def split: option.splits)
next
  case (SortColumn k)
  with assms have "s' = sortColumn k s" by simp
  then show ?thesis
    using SortColumn by (cases "sorting s") (auto simp: sortColumn_def)
next
  case (ToggleColumnVisibility k)
  with assms show ?thesis by (auto simp: toggleColumnVisibility_def split: option.splits)
next
  case (SetSearchValue t)
  with assms show ?thesis by (auto simp: sorting_setSearchValue)
next
  case (SelectItem u ds)
  with assms show ?thesis by (auto simp: sorting_selectItem)
next
  case (KeyDown k ds v)
  with assms obtain h where "onKeyDown onSelect ds v k s = Inr (s', h)"
    by (cases "onKeyDown onSelect ds v k s") auto
  then show ?thesis
    by (simp add: sorting_onKeyDown)
qed

lemma example_run:
  "run (\<lambda>v. v) example_columns False example_events example_state = Inr example_reached"
proof -
  have "\<exists>st. run (\<lambda>v. v) example_columns False example_events example_state = Inr st"
    by (simp add: example_events_def example_state_def columns_mount computeInitialColumns_def
        example_columns_def toggleColumnVisibility_def resizeColumn_def)
  then show ?thesis
    by (auto simp: example_reached_def)
qed

lemma example_reachable:
  "reachable (\<lambda>v. v) example_columns False example_ds0 example_events example_reached"
  using example_run by (simp add: reachable_def example_state_def)

lemma example_reached_fields:
  "map visible (columns example_reached) = [Some True, Some True]"
  "map width (columns example_reached) = [Some 120, Some 80]"
  "map key (columns example_reached) = [''name'', ''city'']"
  "sorting example_reached = Some \<lparr>sortKey = ''name'', direction = down\<rparr>"
  "searchValue example_reached = ''AL''"
  by (simp_all add: example_reached_def example_events_def example_state_def mount_def
      applyFilter_def computeInitialColumns_def example_columns_def toggleColumnVisibility_def
      resizeColumn_def sortColumn_def setSearchValue_def)

section \<open>Reset\<close>

text \<open>
  C6. In a state reached from mount by any events that did not throw (resizes and
  toggles among them), \<^verbatim>\<open>reset()\<close> does not throw and leaves the columns as they were
  at mount: every column's \<^verbatim>\<open>visible\<close> is \<^verbatim>\<open>true\<close> unless the default column has
  \<^verbatim>\<open>visible: false\<close>. The sorting is unset, the data source has been reset once more,
  and the search value is what it was.
\<close>

theorem reset_restores_defaults:
  assumes "reachable toStr dflt onSelect ds0 es st"
  shows "reachable toStr dflt onSelect ds0 (es @ [Reset]) (reset dflt st) \<and>
         columns (reset dflt st) = columns (mount toStr dflt ds0) \<and>
         map visible (columns (reset dflt st)) = map (\<lambda>c. Some (visible c \<noteq> Some False)) dflt \<and>
         sorting (reset dflt st) = None \<and>
         resets (dataSource (reset dflt st)) = Suc (resets (dataSource st)) \<and>
         searchValue (reset dflt st) = searchValue st"
proof -
  have "reachable toStr dflt onSelect ds0 (es @ [Reset]) (reset dflt st)"
    using assms by (simp add: reachable_def run_append)
  moreover have "columns (reset dflt st) = columns (mount toStr dflt ds0)"
    by (simp add: reset_def columns_mount)
  moreover have "map visible (columns (reset dflt st)) = map (\<lambda>c. Some (visible c \<noteq> Some False)) dflt"
    by (simp add: reset_def computeInitialColumns_def)
  moreover have "resets (dataSource (reset dflt st)) = Suc (resets (dataSource st))"
    by (simp add: reset_def reset_ds_def)
  ultimately show ?thesis
    by (simp add: reset_def)
qed

theorem reset_restores_defaults_witness:
  "reachable (\<lambda>v. v) example_columns False example_ds0 example_events example_reached \<and>
   map visible (columns example_reached) = [Some True, Some True] \<and>
   map visible (columns (reset example_columns example_reached)) = [Some True, Some False] \<and>
   sorting example_reached = Some \<lparr>sortKey = ''name'', direction = down\<rparr> \<and>
   sorting (reset example_columns example_reached) = None \<and>
   searchValue (reset example_columns example_reached) = ''AL''"
proof -
  note t = reset_restores_defaults [OF example_reachable]
  from t have "map visible (columns (reset example_columns example_reached)) =
      map (\<lambda>c. Some (visible c \<noteq> Some False)) example_columns"
    by blast
  then have "map visible (columns (reset example_columns example_reached)) = [Some True, Some False]"
    by (simp add: example_columns_def)
  moreover from t have "sorting (reset example_columns example_reached) = None"
    by blast
  moreover from t have "searchValue (reset example_columns example_reached) = ''AL''"
    by (simp add: example_reached_fields)
  ultimately show ?thesis
    using example_reachable by (simp add: example_reached_fields)
qed

section \<open>The sorted key and the columns\<close>

text \<open>
  C7, as the code has it. In every state reached from mount the keys of the columns are
  those of the default columns, and the sorting, if there is one, has a key that an
  earlier call of \<^verbatim>\<open>sortColumn\<close> was given. So the sorted key is the key of a column
  when every call of \<^verbatim>\<open>sortColumn\<close> so far was given the key of a column.
  \<^verbatim>\<open>sortColumn\<close> itself does not look its key up in the columns: called in such a
  state with a key of no column, it sets the sorting to that key with the direction
  \<^verbatim>\<open>'down'\<close>, and the sorted key is then the key of no column.
\<close>

theorem sorting_key_is_a_column:
  fixes st :: "('n, 'w, 'v) TableManager"
  assumes "reachable toStr dflt onSelect ds0 es st"
  shows "map key (columns st) = map key dflt \<and>
         (\<forall>s. sorting st = Some s \<longrightarrow> SortColumn (sortKey s) \<in> set es) \<and>
         ((\<forall>k. SortColumn k \<in> set es \<longrightarrow> k \<in> key ` set dflt) \<longrightarrow>
            (\<forall>s. sorting st = Some s \<longrightarrow> sortKey s \<in> key ` set (columns st)) \<and>
            (\<forall>k. k \<notin> key ` set (columns st) \<longrightarrow>
               reachable toStr dflt onSelect ds0 (es @ [SortColumn k]) (sortColumn k st) \<and>
               sorting (sortColumn k st) = Some \<lparr>sortKey = k, direction = down\<rparr> \<and>
               k \<notin> key ` set (columns (sortColumn k st))))"
proof -
  have r: "run toStr dflt onSelect es (mount toStr dflt ds0) = Inr st"
    using assms by (simp add: reachable_def)
  have keys: "map key (columns st) = map key dflt"
    using r
  proof (rule run_invariant)
    show "map key (columns (mount toStr dflt ds0)) = map key dflt"
      by (simp add: columns_mount computeInitialColumns_def)
  next
    fix e s s'
    assume "map key (columns s) = map key dflt" "step toStr dflt onSelect e s = Inr s'"
    then show "map key (columns s') = map key dflt"
      using step_keeps_keys by blast
  qed
  have given: "\<forall>x. sorting st = Some x \<longrightarrow> SortColumn (sortKey x) \<in> set es"
    using r
  proof (rule run_invariant)
    show "\<forall>x. sorting (mount toStr dflt ds0) = Some x \<longrightarrow> SortColumn (sortKey x) \<in> set es"
      by (simp add: mount_def applyFilter_def)
  next
    fix e s s'
    assume e: "e \<in> set es"
      and p: "\<forall>x. sorting s = Some x \<longrightarrow> SortColumn (sortKey x) \<in> set es"
      and st: "step toStr dflt onSelect e s = Inr s'"
    show "\<forall>x. sorting s' = Some x \<longrightarrow> SortColumn (sortKey x) \<in> set es"
    proof (intro allI impI)
      fix x assume x: "sorting s' = Some x"
      from sorting_step [OF st] x consider "sorting s = Some x"
        | k d where "e = SortColumn k" "x = \<lparr>sortKey = k, direction = d\<rparr>"
        by auto
      then show "SortColumn (sortKey x) \<in> set es"
      proof cases
        case 1
        with p show ?thesis by simp
      next
        case 2
        with e show ?thesis by simp
      qed
    qed
  qed
  have same: "key ` set (columns st) = key ` set dflt"
    using keys by (metis set_map)
  have rest: "(\<forall>s. sorting st = Some s \<longrightarrow> sortKey s \<in> key ` set (columns st)) \<and>
      (\<forall>k. k \<notin> key ` set (columns st) \<longrightarrow>
         reachable toStr dflt onSelect ds0 (es @ [SortColumn k]) (sortColumn k st) \<and>
         sorting (sortColumn k st) = Some \<lparr>sortKey = k, direction = down\<rparr> \<and>
         k \<notin> key ` set (columns (sortColumn k st)))"
    if valid: "\<forall>k. SortColumn k \<in> set es \<longrightarrow> k \<in> key ` set dflt"
  proof -
    have inv: "\<forall>s. sorting st = Some s \<longrightarrow> sortKey s \<in> key ` set (columns st)"
      using given valid same by blast
    have "reachable toStr dflt onSelect ds0 (es @ [SortColumn k]) (sortColumn k st) \<and>
         sorting (sortColumn k st) = Some \<lparr>sortKey = k, direction = down\<rparr> \<and>
         k \<notin> key ` set (columns (sortColumn k st))"
      if k: "k \<notin> key ` set (columns st)" for k
    proof -
      have "map_option sortKey (sorting st) \<noteq> Some k"
        using inv k by (cases "sorting st") auto
      then have "sortColumn k st =
          st\<lparr>sorting := Some \<lparr>sortKey = k, direction = down\<rparr>,
             dataSource := setReversed False (setSortBy (Some k) (dataSource st))\<rparr>"
        by (rule sortColumn_other)
      then have "sorting (sortColumn k st) = Some \<lparr>sortKey = k, direction = down\<rparr>"
        by simp
      moreover have "reachable toStr dflt onSelect ds0 (es @ [SortColumn k]) (sortColumn k st)"
        using r by (simp add: reachable_def run_append)
      ultimately show ?thesis
        using k by (simp add: columns_sortColumn)
    qed
    with inv show ?thesis by blast
  qed
  show ?thesis
    using keys given rest by blast
qed

theorem sorting_key_is_a_column_witness:
  "reachable (\<lambda>v. v) example_columns False example_ds0 example_events example_reached \<and>
   list_all (\<lambda>e. case e of SortColumn k \<Rightarrow> k \<in> key ` set example_columns | _ \<Rightarrow> True) example_events \<and>
   map key (columns example_reached) = map key example_columns \<and>
   sorting example_reached = Some \<lparr>sortKey = ''name'', direction = down\<rparr> \<and>
   SortColumn ''name'' \<in> set example_events \<and>
   ''name'' \<in> key ` set (columns example_reached) \<and>
   ''nope'' \<notin> key ` set (columns example_reached) \<and>
   sorting (sortColumn ''nope'' example_reached) = Some \<lparr>sortKey = ''nope'', direction = down\<rparr> \<and>
   ''nope'' \<notin> key ` set (columns (sortColumn ''nope'' example_reached))"
proof -
  have h: "\<forall>k. SortColumn k \<in> set example_events \<longrightarrow> k \<in> key ` set example_columns"
    by (simp add: example_events_def example_columns_def)
  have l: "list_all (\<lambda>e. case e of SortColumn k \<Rightarrow> k \<in> key ` set example_columns | _ \<Rightarrow> True)
      example_events"
    by (simp add: example_events_def example_columns_def)
  have s: "sorting example_reached = Some \<lparr>sortKey = ''name'', direction = down\<rparr>"
    by (simp add: example_reached_fields)
  have "key ` set (columns example_reached) = set (map key (columns example_reached))"
    by simp
  then have n: "''nope'' \<notin> key ` set (columns example_reached)"
    by (simp only: example_reached_fields(3)) simp
  note t = sorting_key_is_a_column [OF example_reachable]
  from t have a: "map key (columns example_reached) = map key example_columns"
    by blast
  from t s have b: "SortColumn ''name'' \<in> set example_events"
    by fastforce
  from t h s have c: "''name'' \<in> key ` set (columns example_reached)"
    by fastforce
  from t h n have d: "sorting (sortColumn ''nope'' example_reached) =
        Some \<lparr>sortKey = ''nope'', direction = down\<rparr> \<and>
      ''nope'' \<notin> key ` set (columns (sortColumn ''nope'' example_reached))"
    by blast
  show ?thesis
    using example_reachable l s n a b c d by simp
qed

text \<open>
  The claim as the spec has it (the sorted key is the key of a column in every reachable
  state) fails after \<^verbatim>\<open>sortColumn("nope")\<close> on the table of two columns.
\<close>

theorem sorting_key_unknown_column:
  "reachable (\<lambda>v. v) example_columns False example_ds0 [SortColumn ''nope'']
     (sortColumn ''nope'' example_state) \<and>
   sorting (sortColumn ''nope'' example_state) = Some \<lparr>sortKey = ''nope'', direction = down\<rparr> \<and>
   ''nope'' \<notin> key ` set (columns (sortColumn ''nope'' example_state))"
  by (simp add: reachable_def example_state_def sortColumn_def mount_def applyFilter_def
      computeInitialColumns_def example_columns_def)

section \<open>Visibility\<close>

lemma truthy_iff: "truthy b \<longleftrightarrow> b = Some True"
  by (cases b) auto

text \<open>
  C10. In every state reached from mount, the \<^verbatim>\<open>visible\<close> of every column is
  \<^verbatim>\<open>true\<close> or \<^verbatim>\<open>false\<close>, never \<^verbatim>\<open>undefined\<close>: at mount it is
  \<open>visible \<noteq> false\<close> of the default column, and a toggle that does not throw replaces
  the boolean of one column by its negation. So the visible columns, the columns with a
  truthy \<^verbatim>\<open>visible\<close>, are the columns whose \<^verbatim>\<open>visible\<close> is \<^verbatim>\<open>true\<close>, in the
  order of the columns.
\<close>

theorem visible_is_boolean:
  assumes "reachable toStr dflt onSelect ds0 es st"
  shows "(\<forall>c \<in> set (columns st). visible c = Some True \<or> visible c = Some False) \<and>
         map visible (columns (mount toStr dflt ds0)) =
           map (\<lambda>c. Some (visible c \<noteq> Some False)) dflt \<and>
         (\<forall>k st'. toggleColumnVisibility k st = Inr st' \<longrightarrow>
            (\<exists>i b. i < length (columns st) \<and> key (columns st ! i) = k \<and>
               visible (columns st ! i) = Some b \<and>
               st' = st\<lparr>columns := (columns st)[i := (columns st ! i)\<lparr>visible := Some (\<not> b)\<rparr>]\<rparr>)) \<and>
         visibleColumns st = filter (\<lambda>c. visible c = Some True) (columns st) \<and>
         subseq (visibleColumns st) (columns st)"
proof -
  have r: "run toStr dflt onSelect es (mount toStr dflt ds0) = Inr st"
    using assms by (simp add: reachable_def)
  have init: "\<forall>c \<in> set (columns (mount toStr dflt ds0)). visible c \<noteq> None"
    by (simp add: columns_mount computeInitialColumns_def)
  have inv: "\<forall>c \<in> set (columns st). visible c \<noteq> None"
    using r init
  proof (rule run_invariant)
    fix e s s'
    assume "\<forall>c \<in> set (columns s). visible c \<noteq> None" "step toStr dflt onSelect e s = Inr s'"
    then show "\<forall>c \<in> set (columns s'). visible c \<noteq> None"
      using step_keeps_boolean by blast
  qed
  have 1: "\<forall>c \<in> set (columns st). visible c = Some True \<or> visible c = Some False"
    using inv by (metis option.exhaust)
  have 2: "map visible (columns (mount toStr dflt ds0)) =
      map (\<lambda>c. Some (visible c \<noteq> Some False)) dflt"
    by (simp add: columns_mount computeInitialColumns_def)
  have 3: "\<exists>i b. i < length (columns st) \<and> key (columns st ! i) = k \<and>
               visible (columns st ! i) = Some b \<and>
               st' = st\<lparr>columns := (columns st)[i := (columns st ! i)\<lparr>visible := Some (\<not> b)\<rparr>]\<rparr>"
    if t: "toggleColumnVisibility k st = Inr st'" for k st'
  proof -
    from t obtain i where i: "find_col k (columns st) = Some i"
      and s': "st' = st\<lparr>columns :=
        (columns st)[i := (columns st ! i)\<lparr>visible := Some (\<not> truthy (visible (columns st ! i)))\<rparr>]\<rparr>"
      by (auto simp: toggleColumnVisibility_def split: option.splits)
    from find_col_Some [OF i] have l: "i < length (columns st)" and k: "key (columns st ! i) = k"
      by simp_all
    from l inv obtain b where b: "visible (columns st ! i) = Some b"
      by (metis nth_mem option.exhaust)
    with s' l k show ?thesis by auto
  qed
  have 4: "visibleColumns st = filter (\<lambda>c. visible c = Some True) (columns st)"
    by (simp add: visibleColumns_def truthy_iff)
  have 5: "subseq (visibleColumns st) (columns st)"
    by (simp add: visibleColumns_def)
  show ?thesis
    using 1 2 3 4 5 by blast
qed

theorem visible_is_boolean_witness:
  "reachable (\<lambda>v. v) example_columns False example_ds0 example_events example_reached \<and>
   map visible (columns example_reached) = [Some True, Some True] \<and>
   map key (visibleColumns example_reached) = [''name'', ''city''] \<and>
   list_all (\<lambda>c. visible c = Some True \<or> visible c = Some False) (columns example_reached) \<and>
   subseq (visibleColumns example_reached) (columns example_reached)"
proof -
  note t = visible_is_boolean [OF example_reachable]
  from t have "list_all (\<lambda>c. visible c = Some True \<or> visible c = Some False) (columns example_reached)"
    by (simp add: list_all_iff)
  moreover from t have "visibleColumns example_reached =
      filter (\<lambda>c. visible c = Some True) (columns example_reached)"
    by blast
  then have "map key (visibleColumns example_reached) = [''name'', ''city'']"
    by (simp add: example_reached_def example_events_def example_state_def mount_def
      applyFilter_def computeInitialColumns_def example_columns_def toggleColumnVisibility_def
      resizeColumn_def sortColumn_def setSearchValue_def)
  moreover from t have "subseq (visibleColumns example_reached) (columns example_reached)"
    by blast
  ultimately show ?thesis
    using example_reachable by (simp add: example_reached_fields)
qed

end
